theory Spec2Isabelle
  imports Main "HOL-Library.Word"
begin

section \<open>Stream output of integers (pivot.cpp, lines 34-41)\<close>

text \<open>
  The key encoder writes scalars into a fresh \<^verbatim>\<open>std::ostringstream\<close>.  For the built-in
  signed integer types the standard inserter prints the decimal digits of the value (classic
  locale, no grouping), with a leading minus sign for a negative value: \<open>dec_out\<close>.
\<close>

definition digit_char :: "nat \<Rightarrow> char" where
  "digit_char d = ''0123456789'' ! d"

function dec_nat :: "nat \<Rightarrow> string" where
  "dec_nat n = (if n < 10 then [digit_char n] else dec_nat (n div 10) @ [digit_char (n mod 10)])"
  by pat_completeness auto
termination
  by (relation "measure (\<lambda>n. n)") auto

declare dec_nat.simps [simp del]

definition dec_out :: "int \<Rightarrow> string" where
  "dec_out i = (if i < 0 then CHR ''-'' # dec_nat (nat (- i)) else dec_nat (nat i))"

text \<open>
  C++ integer division and remainder truncate towards zero.
\<close>

definition tdiv :: "int \<Rightarrow> int \<Rightarrow> int" where
  "tdiv a b = (if (a < 0) = (b < 0) then \<bar>a\<bar> div \<bar>b\<bar> else - (\<bar>a\<bar> div \<bar>b\<bar>))"

definition tmod :: "int \<Rightarrow> int \<Rightarrow> int" where
  "tmod a b = a - b * tdiv a b"

text \<open>\<^verbatim>\<open>std::numeric_limits<long long>::max()\<close>, for the 64-bit \<^verbatim>\<open>long long\<close>.\<close>

definition LLONG_MAX :: int where
  "LLONG_MAX = 2 ^ 63 - 1"

text \<open>
  The cast \<^verbatim>\<open>(long)(bigint)\<close> of line 40 keeps the low 64 bits (LP64), read as a signed
  value.
\<close>

definition to_long :: "int \<Rightarrow> int" where
  "to_long b = sint (word_of_int b :: 64 word)"

text \<open>
  \<^verbatim>\<open>operator <<(std::ostream&, __int128_t)\<close>.  The argument is the mathematical value of
  the 128-bit integer.  The quotient \<^verbatim>\<open>bigint / 1000000000000LL\<close> and the product
  \<^verbatim>\<open>bigint*-1\<close> have type \<^verbatim>\<open>__int128_t\<close>, so both are printed by the operator itself;
  the remainder is cast to \<^verbatim>\<open>long long\<close> and printed by the standard inserter.  The
  product overflows for the least 128-bit value only, where the behaviour is undefined:
  the model returns \<open>None\<close> there.
\<close>

function int128_out :: "int \<Rightarrow> string option" where
  "int128_out bigint =
     (if bigint < 0 then
        (if bigint = - (2 ^ 127) then None
         else map_option (\<lambda>s. CHR ''-'' # s) (int128_out (bigint * - 1)))
      else if bigint > LLONG_MAX then
        map_option (\<lambda>hi. hi @ dec_out (tmod bigint 1000000000000))
          (int128_out (tdiv bigint 1000000000000))
      else Some (dec_out (to_long bigint)))"
  by pat_completeness auto
termination
  by (relation "measure (\<lambda>b. nat \<bar>b\<bar> + (if b < 0 then 1 else 0))")
     (auto simp: tdiv_def LLONG_MAX_def)

declare int128_out.simps [simp del]


section \<open>The host interface\<close>

text \<open>
  The header \<^verbatim>\<open>vdb_udf.hpp\<close> is not part of the sources.  Its enumerators (the type codes
  compared in the two \<^verbatim>\<open>switch\<close> statements, the parameter kinds compared in
  \<^verbatim>\<open>validate\<close>) and the standard stream rendering of the two floating-point types are
  parameters of the model, collected in one record.  The integer type \<^verbatim>\<open>int_t\<close> is
  modelled by \<open>int\<close>: no claim depends on its width.
\<close>

type_synonym float4_t = "32 word"
type_synonym float8_t = "64 word"

record vdb =
  TypeTimeStamp :: int
  TypeBigInt :: int
  TypeNumeric :: int
  TypeInt :: int
  TypeDate :: int
  TypeSmallInt :: int
  TypeFloat4 :: int
  TypeFloat8 :: int
  TypeVarChar :: int
  TypeBpChar :: int
  npColRef :: int
  npConst :: int
  float4_out :: "float4_t \<Rightarrow> string"
  float8_out :: "float8_t \<Rightarrow> string"

text \<open>
  Modelled from the spec: \<^verbatim>\<open>vdb_udf::RowDesc\<close> (section 6, "typed getters by column
  index, null check by column index").  A column of a row is what each accessor of the
  class returns for it; a row maps column indices to columns.  The integer getters return
  the mathematical value of the stored integer (\<^verbatim>\<open>numeric_t\<close> is the 128-bit type printed
  by \<open>int128_out\<close>, the others are at most 64 bits wide and printed by the standard
  inserter).
\<close>

record cell =
  isNull :: bool
  getTimeStamp :: int
  getBigInt :: int
  getNumeric :: int
  getInt :: int
  getDate :: int
  getSmallInt :: int
  getFloat4 :: float4_t
  getFloat8 :: float8_t
  getValueAsString :: string

type_synonym RowDesc = "int \<Rightarrow> cell"

text \<open>
  Modelled from the spec: \<^verbatim>\<open>TableArg::copyColumnValue\<close> and \<^verbatim>\<open>RowDesc::setNull\<close>
  (section 6, "set column null, copy a value from an input row's column into an output
  row's column by index").
\<close>

definition copyColumnValue :: "RowDesc \<Rightarrow> int \<Rightarrow> RowDesc \<Rightarrow> int \<Rightarrow> RowDesc" where
  "copyColumnValue rd_in inColIdx rd_out outIdx = rd_out (outIdx := rd_in inColIdx)"

definition setNull :: "int \<Rightarrow> bool \<Rightarrow> RowDesc \<Rightarrow> RowDesc" where
  "setNull idx b rd = rd (idx := (rd idx) \<lparr>isNull := b\<rparr>)"

text \<open>
  Modelled from the spec: the other classes of the host that the code reads (section 6).
  Of a \<^verbatim>\<open>Column\<close> the code reads \<^verbatim>\<open>type\<close> and \<^verbatim>\<open>length\<close>.  The result of
  \<^verbatim>\<open>SQLClient::open\<close> is the schema of the query and the rows that the calls of
  \<^verbatim>\<open>fetch\<close> return, in order.  A named parameter value is what its accessors return;
  \<open>fillColumnIndexVector\<close> is the vector of column indices that the method of this name
  fills in.  Of a \<^verbatim>\<open>TableArg\<close> the model keeps the named parameters (\<open>None\<close> for the
  \<^verbatim>\<open>NULL\<close> pointer), the input columns and the SQL client made from it.
\<close>

record Column =
  type_col :: int
  length_col :: int

record SQLResult =
  schema :: "Column list"
  rows :: "RowDesc list"

record NamedParameterValue =
  kindOfParameter :: int
  getColRef :: int
  fillColumnIndexVector :: "int list"
  npv_getValueAsString :: string

record TableArg =
  getNamedParameterValue :: "string \<Rightarrow> NamedParameterValue option"
  getInputColumn :: "int \<Rightarrow> Column"
  SQLClient_open :: "string \<Rightarrow> SQLResult"

text \<open>
  \<^verbatim>\<open>throwError\<close> aborts the running command (section 6, "Error signaling").  The code
  raises messages; the model names each raise by the taxonomy of section 7.  Two more
  values stand for what the C++ leaves open: \<open>UndefinedBehaviour\<close> (signed overflow, a read
  past the end of a vector) and \<open>HostFault\<close> (a failure inside the host library: an empty
  schema, a serializer that runs dry).
\<close>

datatype error =
    ParameterError
  | SchemaError
  | NullPivotKey
  | PivotKeyNotFound
  | OffsetRangeError
  | UnsupportedKeyType
  | UndefinedBehaviour
  | HostFault

definition NPV_COLQRY :: string where "NPV_COLQRY = ''column_list''"
definition NPV_GROUPCOL :: string where "NPV_GROUPCOL = ''groupcol''"
definition NPV_PIVOTCOL :: string where "NPV_PIVOTCOL = ''pivotcol''"
definition NPV_PIVOTVAL :: string where "NPV_PIVOTVAL = ''pivotval''"

section \<open>PivotMapTable (pivot.cpp, lines 44-197)\<close>

text \<open>
  \<^verbatim>\<open>std::unordered_map<std::string, int_t>\<close> is an association list; \<open>map_of\<close> is
  \<^verbatim>\<open>find\<close>, the length is \<^verbatim>\<open>size()\<close>, and the order of the list is the iteration order.
  \<^verbatim>\<open>insert\<close> does nothing when the key is already present.
\<close>

type_synonym unordered_pmap = "(string \<times> int) list"

definition umap_insert :: "string \<Rightarrow> int \<Rightarrow> unordered_pmap \<Rightarrow> unordered_pmap" where
  "umap_insert k v m = (case map_of m k of Some _ \<Rightarrow> m | None \<Rightarrow> m @ [(k, v)])"

record PivotMapTable =
  m_key_col_idx :: int
  m_value_type :: int
  m_value_len :: int
  m_pivotcol_type :: int
  m_pivotcol_len :: int
  m_map_values :: unordered_pmap

definition PivotMapTable_new :: PivotMapTable where
  "PivotMapTable_new =
     \<lparr>m_key_col_idx = 0, m_value_type = 0, m_value_len = 0,
      m_pivotcol_type = 0, m_pivotcol_len = 0, m_map_values = []\<rparr>"

definition setPivotValType :: "int \<Rightarrow> int \<Rightarrow> PivotMapTable \<Rightarrow> PivotMapTable" where
  "setPivotValType v len t = t \<lparr>m_value_type := v, m_value_len := len\<rparr>"

definition setPivotColType :: "int \<Rightarrow> int \<Rightarrow> PivotMapTable \<Rightarrow> PivotMapTable" where
  "setPivotColType v len t = t \<lparr>m_pivotcol_type := v, m_pivotcol_len := len\<rparr>"

definition getMapSize :: "PivotMapTable \<Rightarrow> nat" where
  "getMapSize t = length (m_map_values t)"

text \<open>
  The key that \<^verbatim>\<open>add\<close> computes from column 0 of a catalog row (lines 104-159): the
  \<^verbatim>\<open>switch\<close> on \<^verbatim>\<open>m_pivotcol_type\<close>, then \<^verbatim>\<open>keycvt.str()\<close> unless the string branch was
  taken.  The \<^verbatim>\<open>default\<close> branch writes nothing, so the key is the empty string.
\<close>

definition add_key :: "vdb \<Rightarrow> int \<Rightarrow> RowDesc \<Rightarrow> string option" where
  "add_key H pivotcol_type row_p =
     (if pivotcol_type = TypeTimeStamp H then Some (dec_out (getTimeStamp (row_p 0)))
      else if pivotcol_type = TypeBigInt H then Some (dec_out (getBigInt (row_p 0)))
      else if pivotcol_type = TypeNumeric H then int128_out (getNumeric (row_p 0))
      else if pivotcol_type = TypeInt H then Some (dec_out (getInt (row_p 0)))
      else if pivotcol_type = TypeDate H then Some (dec_out (getDate (row_p 0)))
      else if pivotcol_type = TypeSmallInt H then Some (dec_out (getSmallInt (row_p 0)))
      else if pivotcol_type = TypeFloat4 H then Some (float4_out H (getFloat4 (row_p 0)))
      else if pivotcol_type = TypeFloat8 H then Some (float8_out H (getFloat8 (row_p 0)))
      else if pivotcol_type = TypeVarChar H \<or> pivotcol_type = TypeBpChar H
        then Some (getValueAsString (row_p 0))
      else Some [])"

definition add :: "vdb \<Rightarrow> RowDesc \<Rightarrow> int \<Rightarrow> PivotMapTable \<Rightarrow> error + PivotMapTable" where
  "add H row_p colpos t =
     (case add_key H (m_pivotcol_type t) row_p of
        None \<Rightarrow> Inl UndefinedBehaviour
      | Some key \<Rightarrow> Inr (t \<lparr>m_map_values := umap_insert key colpos (m_map_values t)\<rparr>))"

definition findcolumnoffset :: "PivotMapTable \<Rightarrow> string \<Rightarrow> int" where
  "findcolumnoffset t key =
     (case map_of (m_map_values t) key of None \<Rightarrow> - 1 | Some v \<Rightarrow> v)"

subsection \<open>Serialization (lines 56-89)\<close>

text \<open>
  Modelled from the spec: \<^verbatim>\<open>vdb_udf::Serializer\<close> (section 4.3) is a queue of integers and
  strings: \<^verbatim>\<open><<\<close> appends an item, \<^verbatim>\<open>>>\<close> takes the first one.
\<close>

datatype item = IntItem int | StrItem string

type_synonym Serializer = "item list"

definition serialize :: "PivotMapTable \<Rightarrow> Serializer \<Rightarrow> Serializer" where
  "serialize t s =
     (let entries = int (length (m_map_values t));
          s1 = s @ [IntItem (m_pivotcol_type t), IntItem (m_pivotcol_len t),
                    IntItem (m_value_type t), IntItem (m_value_len t), IntItem entries]
      in foldl (\<lambda>s' it. s' @ [StrItem (fst it), IntItem (snd it)]) s1 (m_map_values t))"

fun get_int :: "Serializer \<Rightarrow> error + (int \<times> Serializer)" where
  "get_int (IntItem i # s) = Inr (i, s)"
| "get_int _ = Inl HostFault"

fun get_str :: "Serializer \<Rightarrow> error + (string \<times> Serializer)" where
  "get_str (StrItem v # s) = Inr (v, s)"
| "get_str _ = Inl HostFault"

fun read_entries :: "nat \<Rightarrow> Serializer \<Rightarrow> unordered_pmap \<Rightarrow> error + (unordered_pmap \<times> Serializer)" where
  "read_entries 0 s m = Inr (m, s)"
| "read_entries (Suc n) s m =
     (case get_str s of Inl e \<Rightarrow> Inl e
      | Inr (val, s1) \<Rightarrow>
         (case get_int s1 of Inl e \<Rightarrow> Inl e
          | Inr (data, s2) \<Rightarrow> read_entries n s2 (umap_insert val data m)))"

definition deserialize :: "PivotMapTable \<Rightarrow> Serializer \<Rightarrow> error + (PivotMapTable \<times> Serializer)" where
  "deserialize t s =
     (case get_int s of Inl e \<Rightarrow> Inl e | Inr (pivotcol_type, s1) \<Rightarrow>
     (case get_int s1 of Inl e \<Rightarrow> Inl e | Inr (pivotcol_len, s2) \<Rightarrow>
     (case get_int s2 of Inl e \<Rightarrow> Inl e | Inr (value_type, s3) \<Rightarrow>
     (case get_int s3 of Inl e \<Rightarrow> Inl e | Inr (value_len, s4) \<Rightarrow>
     (case get_int s4 of Inl e \<Rightarrow> Inl e | Inr (entries, s5) \<Rightarrow>
     (case read_entries (nat entries) s5 (m_map_values t) of Inl e \<Rightarrow> Inl e
      | Inr (m, s6) \<Rightarrow>
          Inr (t \<lparr>m_pivotcol_type := pivotcol_type, m_pivotcol_len := pivotcol_len,
                  m_value_type := value_type, m_value_len := value_len,
                  m_map_values := m\<rparr>, s6)))))))"

section \<open>PivotClass (pivot.cpp, lines 200-529)\<close>

text \<open>
  \<^verbatim>\<open>pivotValColDescs\<close> holds the input columns' descriptions; \<^verbatim>\<open>validate\<close> stores them
  into reserved storage of the vector, which the model writes as a list.
\<close>

record PivotParameters =
  grpCols :: "int list"
  pivotColIdx :: int
  pivotColType :: int
  pivotValCols :: "int list"
  numpivotValCols :: int
  collistquery :: string
  pivotValColDescs :: "Column list"

text \<open>
  \<^verbatim>\<open>validate\<close> (lines 346-424) fills the parameters it is given, which its callers pass
  freshly constructed.  Each \<^verbatim>\<open>throwError\<close> ends it.
\<close>

definition validate :: "vdb \<Rightarrow> TableArg \<Rightarrow> PivotParameters \<Rightarrow> bool \<Rightarrow> error + PivotParameters" where
  "validate H arg pivotParameters start_cmd =
     (case getNamedParameterValue arg NPV_PIVOTCOL of
        None \<Rightarrow> Inl ParameterError
      | Some npvPivotCol \<Rightarrow>
          if kindOfParameter npvPivotCol \<noteq> npColRef H then Inl ParameterError
          else
            let p1 = pivotParameters \<lparr>pivotColIdx := getColRef npvPivotCol\<rparr>;
                p2 = (if \<not> start_cmd
                      then p1 \<lparr>pivotColType := type_col (getInputColumn arg (pivotColIdx p1))\<rparr>
                      else p1)
            in (case getNamedParameterValue arg NPV_GROUPCOL of
                  None \<Rightarrow> Inl ParameterError
                | Some npvGrpCol \<Rightarrow>
                    let p3 = p2 \<lparr>grpCols := fillColumnIndexVector npvGrpCol\<rparr>
                    in (case getNamedParameterValue arg NPV_COLQRY of
                          None \<Rightarrow> Inl ParameterError
                        | Some npvColQuery \<Rightarrow>
                            let p4 = p3 \<lparr>collistquery := npv_getValueAsString npvColQuery\<rparr>
                            in (case getNamedParameterValue arg NPV_PIVOTVAL of
                                  None \<Rightarrow> Inl ParameterError
                                | Some npvPivotVal \<Rightarrow>
                                    if kindOfParameter npvPivotVal \<noteq> npConst H then
                                      let p5 = p4 \<lparr>pivotValCols := fillColumnIndexVector npvPivotVal\<rparr>;
                                          p6 = p5 \<lparr>numpivotValCols := int (length (pivotValCols p5))\<rparr>
                                      in Inr (if \<not> start_cmd
                                              then p6 \<lparr>pivotValColDescs :=
                                                         map (getInputColumn arg) (pivotValCols p6)\<rparr>
                                              else p6)
                                    else Inl ParameterError))))"

subsection \<open>StartCmd (lines 485-508)\<close>

text \<open>
  The \<^verbatim>\<open>while\<close> loop over \<^verbatim>\<open>sql.fetch()\<close>: one \<^verbatim>\<open>add\<close> per catalog row, with
  \<^verbatim>\<open>coloffset++\<close>.
\<close>

fun fetch_add :: "vdb \<Rightarrow> RowDesc list \<Rightarrow> int \<Rightarrow> PivotMapTable \<Rightarrow> error + PivotMapTable" where
  "fetch_add H [] coloffset tblMap = Inr tblMap"
| "fetch_add H (rowp # rest) coloffset tblMap =
     (case add H rowp coloffset tblMap of
        Inl e \<Rightarrow> Inl e
      | Inr tblMap' \<Rightarrow> fetch_add H rest (coloffset + 1) tblMap')"

text \<open>
  The result is the table handed to \<^verbatim>\<open>setSessionData\<close>.  The argument \<open>pivotParameters\<close>
  is the local of that name as constructed.  \<^verbatim>\<open>schema.at(0)\<close> needs a first column.
\<close>

definition StartCmd :: "vdb \<Rightarrow> TableArg \<Rightarrow> PivotParameters \<Rightarrow> error + PivotMapTable" where
  "StartCmd H arg pivotParameters =
     (case validate H arg pivotParameters True of
        Inl e \<Rightarrow> Inl e
      | Inr pp \<Rightarrow>
          let res = SQLClient_open arg (collistquery pp)
          in (case schema res of
                [] \<Rightarrow> Inl HostFault
              | val_col_p # _ \<Rightarrow>
                  fetch_add H (rows res) 0
                    (setPivotColType (type_col val_col_p) (length_col val_col_p)
                       PivotMapTable_new)))"

subsection \<open>process (lines 234-339)\<close>

record PivotClass =
  m_map :: PivotMapTable
  m_pivotParameters :: PivotParameters
  m_first_time :: bool
  m_out_rd :: RowDesc

text \<open>
  The constructor (lines 223-227): \<open>out_rd\<close> is the row that \<^verbatim>\<open>m_store.alloc()\<close> returns,
  \<open>session\<close> the table that \<^verbatim>\<open>getSessionData\<close> delivers.
\<close>

definition PivotClass_new :: "PivotMapTable \<Rightarrow> PivotParameters \<Rightarrow> RowDesc \<Rightarrow> PivotClass" where
  "PivotClass_new session pivotParameters out_rd =
     \<lparr>m_map = session, m_pivotParameters = pivotParameters, m_first_time = True,
      m_out_rd = out_rd\<rparr>"

text \<open>
  The key that \<^verbatim>\<open>process\<close> computes from the pivot column of an input row (lines
  275-319): the \<^verbatim>\<open>switch\<close> on \<^verbatim>\<open>m_pivotParameters.pivotColType\<close>.
\<close>

definition process_key :: "vdb \<Rightarrow> PivotParameters \<Rightarrow> RowDesc \<Rightarrow> string option" where
  "process_key H P rd_in =
     (if pivotColType P = TypeTimeStamp H
        then Some (dec_out (getTimeStamp (rd_in (pivotColIdx P))))
      else if pivotColType P = TypeBigInt H
        then Some (dec_out (getBigInt (rd_in (pivotColIdx P))))
      else if pivotColType P = TypeNumeric H
        then int128_out (getNumeric (rd_in (pivotColIdx P)))
      else if pivotColType P = TypeInt H
        then Some (dec_out (getInt (rd_in (pivotColIdx P))))
      else if pivotColType P = TypeDate H
        then Some (dec_out (getDate (rd_in (pivotColIdx P))))
      else if pivotColType P = TypeSmallInt H
        then Some (dec_out (getSmallInt (rd_in (pivotColIdx P))))
      else if pivotColType P = TypeFloat4 H
        then Some (float4_out H (getFloat4 (rd_in (pivotColIdx P))))
      else if pivotColType P = TypeFloat8 H
        then Some (float8_out H (getFloat8 (rd_in (pivotColIdx P))))
      else if pivotColType P = TypeVarChar H \<or> pivotColType P = TypeBpChar H
        then Some (getValueAsString (rd_in (pivotColIdx P)))
      else Some [])"

text \<open>The two loops of the first call (lines 253-263), each returning the row and \<^verbatim>\<open>outIdx\<close>.\<close>

fun copy_group_cols :: "RowDesc \<Rightarrow> int list \<Rightarrow> RowDesc \<Rightarrow> int \<Rightarrow> RowDesc \<times> int" where
  "copy_group_cols rd_in [] out outIdx = (out, outIdx)"
| "copy_group_cols rd_in (inColIdx # rest) out outIdx =
     copy_group_cols rd_in rest (copyColumnValue rd_in inColIdx out outIdx) (outIdx + 1)"

fun set_nulls :: "nat \<Rightarrow> RowDesc \<Rightarrow> int \<Rightarrow> RowDesc \<times> int" where
  "set_nulls 0 out outIdx = (out, outIdx)"
| "set_nulls (Suc j) out outIdx = set_nulls j (setNull outIdx True out) (outIdx + 1)"

text \<open>
  The block under \<^verbatim>\<open>if (m_first_time)\<close> (lines 250-265).  The bound of the second loop is
  the product of the map's size and \<^verbatim>\<open>numpivotValCols\<close>, a count that is not negative.
\<close>

definition first_time :: "PivotClass \<Rightarrow> RowDesc \<Rightarrow> PivotClass" where
  "first_time s rd_in =
     (let P = m_pivotParameters s;
          (out1, outIdx1) = copy_group_cols rd_in (grpCols P) (m_out_rd s) 0;
          (out2, outIdx2) =
             set_nulls (getMapSize (m_map s) * nat (numpivotValCols P)) out1 outIdx1
      in s \<lparr>m_out_rd := out2, m_first_time := False\<rparr>)"

text \<open>
  The loop over the value columns (lines 328-338), over the values \<open>cs\<close> of
  \<^verbatim>\<open>c_coloffset\<close> still to come.  \<^verbatim>\<open>pivotValCols[c_coloffset]\<close> is unchecked.
\<close>

fun copy_values ::
  "PivotParameters \<Rightarrow> RowDesc \<Rightarrow> int \<Rightarrow> int \<Rightarrow> int \<Rightarrow> nat list \<Rightarrow> RowDesc \<Rightarrow> error + RowDesc" where
  "copy_values P rd_in numGrpCols outIdx myoffset [] out = Inr out"
| "copy_values P rd_in numGrpCols outIdx myoffset (c_coloffset # cs) out =
     (let thiscolpos = outIdx + (myoffset * numpivotValCols P) + int c_coloffset
      in if thiscolpos < numGrpCols then Inl OffsetRangeError
         else if length (pivotValCols P) \<le> c_coloffset then Inl UndefinedBehaviour
         else copy_values P rd_in numGrpCols outIdx myoffset cs
                (copyColumnValue rd_in (pivotValCols P ! c_coloffset) out thiscolpos))"

definition process :: "vdb \<Rightarrow> PivotClass \<Rightarrow> RowDesc \<Rightarrow> error + PivotClass" where
  "process H s rd_in =
     (let P = m_pivotParameters s;
          numGrpCols = int (length (grpCols P));
          s1 = (if m_first_time s then first_time s rd_in else s);
          outIdx = numGrpCols
      in if isNull (rd_in (pivotColIdx P)) then Inl NullPivotKey
         else (case process_key H P rd_in of
                 None \<Rightarrow> Inl UndefinedBehaviour
               | Some key \<Rightarrow>
                   let myoffset = findcolumnoffset (m_map s1) key
                   in if myoffset < 0 then Inl PivotKeyNotFound
                      else (case copy_values P rd_in numGrpCols outIdx myoffset
                                   [0 ..< nat (numpivotValCols P)] (m_out_rd s1) of
                              Inl e \<Rightarrow> Inl e
                            | Inr out \<Rightarrow> Inr (s1 \<lparr>m_out_rd := out\<rparr>))))"

text \<open>
  \<^verbatim>\<open>copy_values\<close> and \<^verbatim>\<open>process\<close> above take \<^verbatim>\<open>thiscolpos\<close> as the sum of line 330 in
  the integers, which is what the code stores as long as the sum fits the variable.
  \<^verbatim>\<open>thiscolpos\<close> is an \<^verbatim>\<open>int_t\<close>, a 32-bit integer (line 334 prints it with \<^verbatim>\<open>%d\<close>): a
  sum beyond \<open>2^31 - 1\<close> wraps around.  \<open>copy_values32\<close> and \<open>process32\<close> are the loop and
  \<^verbatim>\<open>process\<close> with the position as the variable holds it.
\<close>

definition int32 :: "int \<Rightarrow> int" where
  "int32 x = sint (word_of_int x :: 32 word)"

fun copy_values32 ::
  "PivotParameters \<Rightarrow> RowDesc \<Rightarrow> int \<Rightarrow> int \<Rightarrow> int \<Rightarrow> nat list \<Rightarrow> RowDesc \<Rightarrow> error + RowDesc" where
  "copy_values32 P rd_in numGrpCols outIdx myoffset [] out = Inr out"
| "copy_values32 P rd_in numGrpCols outIdx myoffset (c_coloffset # cs) out =
     (let thiscolpos = int32 (outIdx + (myoffset * numpivotValCols P) + int c_coloffset)
      in if thiscolpos < numGrpCols then Inl OffsetRangeError
         else if length (pivotValCols P) \<le> c_coloffset then Inl UndefinedBehaviour
         else copy_values32 P rd_in numGrpCols outIdx myoffset cs
                (copyColumnValue rd_in (pivotValCols P ! c_coloffset) out thiscolpos))"

definition process32 :: "vdb \<Rightarrow> PivotClass \<Rightarrow> RowDesc \<Rightarrow> error + PivotClass" where
  "process32 H s rd_in =
     (let P = m_pivotParameters s;
          numGrpCols = int (length (grpCols P));
          s1 = (if m_first_time s then first_time s rd_in else s);
          outIdx = numGrpCols
      in if isNull (rd_in (pivotColIdx P)) then Inl NullPivotKey
         else (case process_key H P rd_in of
                 None \<Rightarrow> Inl UndefinedBehaviour
               | Some key \<Rightarrow>
                   let myoffset = findcolumnoffset (m_map s1) key
                   in if myoffset < 0 then Inl PivotKeyNotFound
                      else (case copy_values32 P rd_in numGrpCols outIdx myoffset
                                   [0 ..< nat (numpivotValCols P)] (m_out_rd s1) of
                              Inl e \<Rightarrow> Inl e
                            | Inr out \<Rightarrow> Inr (s1 \<lparr>m_out_rd := out\<rparr>))))"

subsection \<open>flush and FinalizeCmd (lines 341-344, 518-521)\<close>

text \<open>
  Modelled from the spec: \<^verbatim>\<open>RowStore::put\<close> hands a row downstream (section 4.4, "emit
  the accumulated row downstream"); the store is the list of the rows put so far.
\<close>

type_synonym RowStore = "RowDesc list"

definition put :: "RowDesc \<Rightarrow> RowStore \<Rightarrow> RowStore" where
  "put rd store = store @ [rd]"

definition flush :: "PivotClass \<Rightarrow> RowStore \<Rightarrow> PivotClass \<times> RowStore" where
  "flush s store = (s, put (m_out_rd s) store)"

definition FinalizeCmd :: "PivotClass \<Rightarrow> RowStore \<Rightarrow> PivotClass \<times> RowStore" where
  "FinalizeCmd functor store = flush functor store"


text \<open>
  The host calls \<^verbatim>\<open>process\<close> once per input row and the \<^verbatim>\<open>Finalize\<close> command of
  \<^verbatim>\<open>pivot\<close> (lines 542-544) when the rows of a group are over; \<open>run\<close> applies such a
  sequence of calls to one functor and the row store, stopping at the first error.
\<close>

datatype call = Process RowDesc | Finalize

fun run :: "vdb \<Rightarrow> call list \<Rightarrow> PivotClass \<times> RowStore \<Rightarrow> error + (PivotClass \<times> RowStore)" where
  "run H [] st = Inr st"
| "run H (Process rd_in # calls) (functor, store) =
     (case process H functor rd_in of
        Inl e \<Rightarrow> Inl e
      | Inr functor' \<Rightarrow> run H calls (functor', store))"
| "run H (Finalize # calls) (functor, store) = run H calls (FinalizeCmd functor store)"

text \<open>
  The slots of the output row that belong to the key at offset \<open>offs\<close>: the positions
  \<^verbatim>\<open>thiscolpos\<close> of line 330, for \<^verbatim>\<open>c_coloffset\<close> from 0 up to \<^verbatim>\<open>numpivotValCols\<close>.
\<close>

definition key_block :: "PivotParameters \<Rightarrow> int \<Rightarrow> int set" where
  "key_block P offs =
     {int (length (grpCols P)) + offs * numpivotValCols P ..<
      int (length (grpCols P)) + offs * numpivotValCols P + numpivotValCols P}"

text \<open>The type codes with a \<^verbatim>\<open>case\<close> label in the two \<^verbatim>\<open>switch\<close> statements.\<close>

definition supported_types :: "vdb \<Rightarrow> int set" where
  "supported_types H =
     {TypeTimeStamp H, TypeBigInt H, TypeNumeric H, TypeInt H, TypeDate H, TypeSmallInt H,
      TypeFloat4 H, TypeFloat8 H, TypeVarChar H, TypeBpChar H}"

section \<open>last_day (last-day.cpp)\<close>

text \<open>
  The date functions of \<^verbatim>\<open>padb_udf.hpp\<close>, which is not part of the sources, are
  parameters; \<open>'d\<close> is \<^verbatim>\<open>padb_udf::date_t\<close>.
\<close>

record 'd padb =
  extract_year_from_date :: "'d \<Rightarrow> int"
  extract_month_from_date :: "'d \<Rightarrow> int"
  extract_day_from_date :: "'d \<Rightarrow> int"
  date_plus_days :: "'d \<Rightarrow> int \<Rightarrow> 'd"

definition isleap :: "int \<Rightarrow> bool" where
  "isleap y = (tmod y 4 = 0 \<and> (tmod y 100 \<noteq> 0 \<or> tmod y 400 = 0))"

definition m_last_days :: "int list" where
  "m_last_days = [31, 28, 31, 30, 31, 30, 31, 31, 30, 31, 30, 31]"

text \<open>\<^verbatim>\<open>calc_lastdayofmonth\<close> (lines 83-97); \<^verbatim>\<open>m_last_days[cmon-1]\<close> is unchecked.\<close>

definition calc_lastdayofmonth :: "'d padb \<Rightarrow> 'd \<Rightarrow> error + 'd" where
  "calc_lastdayofmonth D in_date =
     (let cyear = extract_year_from_date D in_date;
          cmon = extract_month_from_date D in_date;
          cday = extract_day_from_date D in_date
      in if isleap cyear \<and> cmon = 2 then Inr (date_plus_days D in_date (29 - cday))
         else if cmon - 1 < 0 \<or> 12 \<le> cmon - 1 then Inl UndefinedBehaviour
         else Inr (date_plus_days D in_date (m_last_days ! nat (cmon - 1) - cday)))"

text \<open>
  \<^verbatim>\<open>last_day\<close> (lines 114-124): \<open>arg_is_null\<close> is \<^verbatim>\<open>aux.isNull(0)\<close>, the result \<open>None\<close> is
  \<^verbatim>\<open>retDateNull()\<close>.
\<close>

definition last_day :: "'d padb \<Rightarrow> bool \<Rightarrow> 'd \<Rightarrow> error + 'd option" where
  "last_day D arg_is_null in_date =
     (if arg_is_null then Inr None
      else (case calc_lastdayofmonth D in_date of
              Inl e \<Rightarrow> Inl e
            | Inr retdate \<Rightarrow> Inr (Some retdate)))"

text \<open>
  What the claim on \<^verbatim>\<open>last_day\<close> needs of the host's calendar.  A year is a leap year
  when it is divisible by 4 and not by 100 unless also by 400; adding days to a date in
  February, without leaving the days of that February, keeps year and month and adds to
  the day.
\<close>

definition gregorian_leap :: "int \<Rightarrow> bool" where
  "gregorian_leap y = (4 dvd y \<and> (\<not> 100 dvd y \<or> 400 dvd y))"

definition february_days :: "int \<Rightarrow> int" where
  "february_days y = (if gregorian_leap y then 29 else 28)"

definition february_calendar :: "'d padb \<Rightarrow> bool" where
  "february_calendar D =
     (\<forall>d n. extract_month_from_date D d = 2 \<and> 1 \<le> extract_day_from_date D d + n \<and>
            extract_day_from_date D d + n \<le> february_days (extract_year_from_date D d) \<longrightarrow>
        extract_year_from_date D (date_plus_days D d n) = extract_year_from_date D d \<and>
        extract_month_from_date D (date_plus_days D d n) = 2 \<and>
        extract_day_from_date D (date_plus_days D d n) = extract_day_from_date D d + n)"

text \<open>
  A calendar to run the code on: a date is its year, month and day, and days are added
  or taken away one at a time.
\<close>

type_synonym civil = "int \<times> int \<times> int"

definition days_in_month :: "int \<Rightarrow> int \<Rightarrow> int" where
  "days_in_month y m =
     (if m = 2 then february_days y
      else if m = 4 \<or> m = 6 \<or> m = 9 \<or> m = 11 then 30 else 31)"

fun next_day :: "civil \<Rightarrow> civil" where
  "next_day (y, m, d) =
     (if d < days_in_month y m then (y, m, d + 1)
      else if m < 12 then (y, m + 1, 1) else (y + 1, 1, 1))"

fun prev_day :: "civil \<Rightarrow> civil" where
  "prev_day (y, m, d) =
     (if 1 < d then (y, m, d - 1)
      else if 1 < m then (y, m - 1, days_in_month y (m - 1)) else (y - 1, 12, 31))"

definition civil_plus_days :: "civil \<Rightarrow> int \<Rightarrow> civil" where
  "civil_plus_days c n =
     (if 0 \<le> n then (next_day ^^ nat n) c else (prev_day ^^ nat (- n)) c)"

definition civil_padb :: "civil padb" where
  "civil_padb =
     \<lparr>extract_year_from_date = (\<lambda>(y, m, d). y),
      extract_month_from_date = (\<lambda>(y, m, d). m),
      extract_day_from_date = (\<lambda>(y, m, d). d),
      date_plus_days = civil_plus_days\<rparr>"

section \<open>Example inputs\<close>

text \<open>
  Scenario A of the specification: the input columns are region (0), status (1) and amount
  (2); the pivot column is status, the grouping column region, the value column amount.
\<close>

definition ex_vdb :: vdb where
  "ex_vdb =
     \<lparr>TypeTimeStamp = 1, TypeBigInt = 2, TypeNumeric = 3, TypeInt = 4, TypeDate = 5,
      TypeSmallInt = 6, TypeFloat4 = 7, TypeFloat8 = 8, TypeVarChar = 9, TypeBpChar = 10,
      npColRef = 1, npConst = 2,
      float4_out = (\<lambda>f. ''0''), float8_out = (\<lambda>f. ''0'')\<rparr>"

definition ex_cell :: "bool \<Rightarrow> int \<Rightarrow> string \<Rightarrow> cell" where
  "ex_cell null i v =
     \<lparr>isNull = null, getTimeStamp = i, getBigInt = i, getNumeric = i, getInt = i,
      getDate = i, getSmallInt = i, getFloat4 = 0, getFloat8 = 0, getValueAsString = v\<rparr>"

definition ex_row :: "cell list \<Rightarrow> RowDesc" where
  "ex_row cs = (\<lambda>i. if 0 \<le> i \<and> i < int (length cs) then cs ! nat i else ex_cell True 0 [])"

definition ex_in :: "string \<Rightarrow> string \<Rightarrow> int \<Rightarrow> RowDesc" where
  "ex_in region status amount =
     ex_row [ex_cell False 0 region, ex_cell False 0 status, ex_cell False amount []]"

definition ex_catalog_row :: "string \<Rightarrow> string \<Rightarrow> RowDesc" where
  "ex_catalog_row k label = ex_row [ex_cell False 0 k, ex_cell False 0 label]"

definition ex_arg :: "RowDesc list \<Rightarrow> TableArg" where
  "ex_arg catalog =
     \<lparr>getNamedParameterValue =
        [NPV_PIVOTCOL \<mapsto> \<lparr>kindOfParameter = 1, getColRef = 1, fillColumnIndexVector = [1],
                           npv_getValueAsString = []\<rparr>,
         NPV_GROUPCOL \<mapsto> \<lparr>kindOfParameter = 1, getColRef = 0, fillColumnIndexVector = [0],
                           npv_getValueAsString = []\<rparr>,
         NPV_COLQRY \<mapsto> \<lparr>kindOfParameter = 2, getColRef = 0, fillColumnIndexVector = [],
                         npv_getValueAsString = ''select k, label from keys''\<rparr>,
         NPV_PIVOTVAL \<mapsto> \<lparr>kindOfParameter = 1, getColRef = 2, fillColumnIndexVector = [2],
                           npv_getValueAsString = []\<rparr>],
      getInputColumn =
        (\<lambda>i. if i = 2 then \<lparr>type_col = 4, length_col = 4\<rparr> else \<lparr>type_col = 9, length_col = 16\<rparr>),
      SQLClient_open =
        (\<lambda>q. \<lparr>schema = [\<lparr>type_col = 9, length_col = 16\<rparr>, \<lparr>type_col = 9, length_col = 16\<rparr>],
               rows = catalog\<rparr>)\<rparr>"

definition ex_local :: PivotParameters where
  "ex_local =
     \<lparr>grpCols = [], pivotColIdx = 0, pivotColType = 0, pivotValCols = [],
      numpivotValCols = 0, collistquery = [], pivotValColDescs = []\<rparr>"

definition ex_params :: PivotParameters where
  "ex_params =
     \<lparr>grpCols = [0], pivotColIdx = 1, pivotColType = 9, pivotValCols = [2],
      numpivotValCols = 1, collistquery = ''select k, label from keys'',
      pivotValColDescs = [\<lparr>type_col = 4, length_col = 4\<rparr>]\<rparr>"

definition ex_session :: PivotMapTable where
  "ex_session =
     \<lparr>m_key_col_idx = 0, m_value_type = 0, m_value_len = 0, m_pivotcol_type = 9,
      m_pivotcol_len = 16, m_map_values = [(''OPEN'', 0), (''CLOSED'', 1)]\<rparr>"

definition ex_functor :: PivotClass where
  "ex_functor = PivotClass_new ex_session ex_params (ex_row [])"




section \<open>Evaluating the integer output\<close>

lemma dec_nat_numeral:
  "dec_nat (numeral k) =
     (if (numeral k :: nat) < 10 then [digit_char (numeral k)]
      else dec_nat (numeral k div 10) @ [digit_char (numeral k mod 10)])"
  by (rule dec_nat.simps)

lemma dec_nat_0: "dec_nat 0 = ''0''"
  by (simp add: dec_nat.simps digit_char_def)

lemma dec_nat_1: "dec_nat (Suc 0) = ''1''"
  by (simp add: dec_nat.simps digit_char_def)

lemmas dec_eval = dec_out_def dec_nat_numeral dec_nat_0 dec_nat_1 digit_char_def

lemma int128_out_numeral:
  "int128_out (numeral k) =
     (if numeral k > LLONG_MAX then
        map_option (\<lambda>hi. hi @ dec_out (tmod (numeral k) 1000000000000))
          (int128_out (tdiv (numeral k) 1000000000000))
      else Some (dec_out (to_long (numeral k))))"
  by (subst int128_out.simps) simp

lemmas int128_eval = int128_out_numeral LLONG_MAX_def tdiv_def tmod_def to_long_def

section \<open>The 128-bit inserter\<close>

text \<open>Up to \<open>LLONG_MAX\<close> the inserter prints the decimal digits of the value.\<close>

lemma to_long_id: "0 \<le> b \<Longrightarrow> b \<le> LLONG_MAX \<Longrightarrow> to_long b = b"
  unfolding to_long_def LLONG_MAX_def
  by (simp add: int_word_sint)

lemma int128_out_small:
  "0 \<le> b \<Longrightarrow> b \<le> LLONG_MAX \<Longrightarrow> int128_out b = Some (dec_out b)"
  by (subst int128_out.simps) (simp add: to_long_id)

text \<open>
  C7.  The claim is that the inserter for \<^verbatim>\<open>__int128_t\<close> prints the exact decimal digits
  of every value, also above the 64-bit range, where it prints the quotient by \<open>10^12\<close>
  and then the remainder.  The code prints the remainder without its leading zeros: for
  \<open>10^19\<close>, which is above \<open>LLONG_MAX\<close>, the quotient is printed as \<open>10000000\<close> and the
  remainder 0 as \<open>0\<close>, nine characters in all, where the decimal digits of the value are
  a one and nineteen zeros.
\<close>

theorem int128_out_loses_zeros:
  "int128_out 10000000000000000000 = Some ''100000000'' \<and>
   dec_out 10000000000000000000 = ''10000000000000000000'' \<and>
   int128_out 100000000 = Some ''100000000''"
  by (simp add: int128_eval dec_eval)

section \<open>The two key encoders\<close>

text \<open>
  C3.  For every type code, the key that \<^verbatim>\<open>add\<close> computes from column 0 of a catalog row
  is the key that \<^verbatim>\<open>process\<close> computes from the pivot column of an input row, when the
  two columns hold the same value and the type code is the same (and the two streams
  render floating-point values alike).
\<close>

theorem add_key_eq_process_key:
  "row_p 0 = rd_in (pivotColIdx P) \<Longrightarrow>
   add_key H (pivotColType P) row_p = process_key H P rd_in"
  by (simp add: add_key_def process_key_def)

theorem add_key_eq_process_key_witness:
  "ex_catalog_row ''OPEN'' ''open_amt'' 0 = ex_in ''east'' ''OPEN'' 10 (pivotColIdx ex_params) \<and>
   add_key ex_vdb (pivotColType ex_params) (ex_catalog_row ''OPEN'' ''open_amt'') = Some ''OPEN'' \<and>
   process_key ex_vdb ex_params (ex_in ''east'' ''OPEN'' 10) = Some ''OPEN''"
proof -
  have same: "ex_catalog_row ''OPEN'' ''open_amt'' 0 = ex_in ''east'' ''OPEN'' 10 (pivotColIdx ex_params)"
    by (simp add: ex_catalog_row_def ex_in_def ex_row_def ex_params_def)
  have k: "add_key ex_vdb (pivotColType ex_params) (ex_catalog_row ''OPEN'' ''open_amt'') = Some ''OPEN''"
    by (simp add: add_key_def ex_vdb_def ex_params_def ex_catalog_row_def ex_row_def ex_cell_def)
  from add_key_eq_process_key
         [where row_p = "ex_catalog_row ''OPEN'' ''open_amt''" and P = ex_params
            and rd_in = "ex_in ''east'' ''OPEN'' 10" and H = ex_vdb, OF same] same k
  show ?thesis
    by simp
qed


section \<open>The Pivot Key Map built at Start\<close>

lemmas ex_defs = ex_vdb_def ex_arg_def ex_local_def ex_params_def ex_session_def ex_functor_def
  ex_catalog_row_def ex_in_def ex_row_def ex_cell_def PivotClass_new_def
  NPV_COLQRY_def NPV_GROUPCOL_def NPV_PIVOTCOL_def NPV_PIVOTVAL_def

lemma map_of_umap_insert:
  "map_of (umap_insert k v m) k' =
     (case map_of m k' of Some w \<Rightarrow> Some w | None \<Rightarrow> if k' = k then Some v else None)"
  by (auto simp: umap_insert_def map_add_def split: option.splits)

lemma add_Inr:
  "add H r c t = Inr t1 \<Longrightarrow>
     m_pivotcol_type t1 = m_pivotcol_type t \<and>
     (\<exists>key. add_key H (m_pivotcol_type t) r = Some key \<and>
            m_map_values t1 = umap_insert key c (m_map_values t))"
  by (auto simp: add_def split: option.splits)

text \<open>An entry, once in the map, survives the rest of the loop.\<close>

lemma fetch_add_keeps:
  "fetch_add H rs c t = Inr t' \<Longrightarrow> map_of (m_map_values t) k = Some w \<Longrightarrow>
   map_of (m_map_values t') k = Some w"
proof (induction rs arbitrary: c t)
  case Nil
  then show ?case by simp
next
  case (Cons r rs)
  from Cons.prems(1) obtain t1 where a: "add H r c t = Inr t1"
    and f: "fetch_add H rs (c + 1) t1 = Inr t'"
    by (auto split: sum.splits)
  from add_Inr [OF a] Cons.prems(2) have "map_of (m_map_values t1) k = Some w"
    by (auto simp: map_of_umap_insert)
  with Cons.IH [OF f] show ?case .
qed

text \<open>A key that is new to the map gets the ordinal of the first row that encodes to it.\<close>

lemma fetch_add_first:
  "fetch_add H rs c t = Inr t' \<Longrightarrow> map_of (m_map_values t) k = None \<Longrightarrow>
   i < length rs \<Longrightarrow> add_key H (m_pivotcol_type t) (rs ! i) = Some k \<Longrightarrow>
   (\<forall>j<i. add_key H (m_pivotcol_type t) (rs ! j) \<noteq> Some k) \<Longrightarrow>
   map_of (m_map_values t') k = Some (c + int i)"
proof (induction rs arbitrary: c t i)
  case Nil
  then show ?case by simp
next
  case (Cons r rs)
  from Cons.prems(1) obtain t1 where a: "add H r c t = Inr t1"
    and f: "fetch_add H rs (c + 1) t1 = Inr t'"
    by (auto split: sum.splits)
  from add_Inr [OF a] obtain key where ty: "m_pivotcol_type t1 = m_pivotcol_type t"
    and key: "add_key H (m_pivotcol_type t) r = Some key"
    and ins: "m_map_values t1 = umap_insert key c (m_map_values t)"
    by blast
  show ?case
  proof (cases i)
    case 0
    with Cons.prems(4) key have "key = k" by simp
    with ins Cons.prems(2) have "map_of (m_map_values t1) k = Some c"
      by (simp add: map_of_umap_insert)
    from fetch_add_keeps [OF f this] 0 show ?thesis by simp
  next
    case (Suc i')
    with Cons.prems(5) key have "key \<noteq> k" by auto
    with ins Cons.prems(2) have none: "map_of (m_map_values t1) k = None"
      by (simp add: map_of_umap_insert)
    have "map_of (m_map_values t') k = Some (c + 1 + int i')"
    proof (rule Cons.IH [OF f none])
      show "i' < length rs" using Cons.prems(3) Suc by simp
      show "add_key H (m_pivotcol_type t1) (rs ! i') = Some k"
        using Cons.prems(4) Suc ty by simp
      show "\<forall>j<i'. add_key H (m_pivotcol_type t1) (rs ! j) \<noteq> Some k"
        using Cons.prems(5) Suc ty by auto
    qed
    with Suc show ?thesis by simp
  qed
qed

text \<open>The offsets that the loop adds are the values of \<^verbatim>\<open>coloffset\<close> it went through.\<close>

lemma fetch_add_range:
  "fetch_add H rs c t = Inr t' \<Longrightarrow> map_of (m_map_values t') k = Some v \<Longrightarrow>
   map_of (m_map_values t) k = Some v \<or> (c \<le> v \<and> v < c + int (length rs))"
proof (induction rs arbitrary: c t)
  case Nil
  then show ?case by simp
next
  case (Cons r rs)
  from Cons.prems(1) obtain t1 where a: "add H r c t = Inr t1"
    and f: "fetch_add H rs (c + 1) t1 = Inr t'"
    by (auto split: sum.splits)
  from Cons.IH [OF f Cons.prems(2)]
  have "map_of (m_map_values t1) k = Some v \<or> (c + 1 \<le> v \<and> v < c + 1 + int (length rs))" .
  with add_Inr [OF a] show ?case
    by (auto simp: map_of_umap_insert split: option.splits if_splits)
qed

lemma StartCmd_Inr:
  assumes "StartCmd H arg pp0 = Inr tbl"
  obtains pp col cols where "validate H arg pp0 True = Inr pp"
    and "schema (SQLClient_open arg (collistquery pp)) = col # cols"
    and "fetch_add H (rows (SQLClient_open arg (collistquery pp))) 0
           (setPivotColType (type_col col) (length_col col) PivotMapTable_new) = Inr tbl"
  using assms by (auto simp: StartCmd_def Let_def split: sum.splits list.splits)

lemma StartCmd_offsets:
  assumes "StartCmd H arg pp0 = Inr tbl" and "map_of (m_map_values tbl) k = Some v"
  shows "0 \<le> v"
proof -
  from assms(1) obtain pp :: PivotParameters and col :: Column where
    f: "fetch_add H (rows (SQLClient_open arg (collistquery pp))) 0
           (setPivotColType (type_col col) (length_col col) PivotMapTable_new) = Inr tbl"
    by (auto elim: StartCmd_Inr)
  from fetch_add_range [OF f assms(2)] show ?thesis
    by (auto simp: setPivotColType_def PivotMapTable_new_def)
qed

text \<open>
  C4.  The claim is that, of two catalog rows that encode to the same key, the later one
  overwrites the entry of the earlier one.  \<^verbatim>\<open>add\<close> stores with
  \<^verbatim>\<open>unordered_map::insert\<close>, which leaves an existing entry alone: for the catalog rows
  OPEN, OPEN, CLOSED the map holds OPEN at 0 (not 1) and CLOSED at 2.
\<close>

theorem StartCmd_duplicate_key_counterexample:
  "StartCmd ex_vdb
     (ex_arg [ex_catalog_row ''OPEN'' ''open_amt'', ex_catalog_row ''OPEN'' ''open_qty'',
              ex_catalog_row ''CLOSED'' ''closed_amt'']) ex_local =
     Inr (ex_session \<lparr>m_map_values := [(''OPEN'', 0), (''CLOSED'', 2)]\<rparr>)"
  by (simp add: StartCmd_def validate_def ex_defs add_def add_key_def setPivotColType_def
        PivotMapTable_new_def umap_insert_def)

text \<open>
  C4, amended.  In the map that \<^verbatim>\<open>StartCmd\<close> installs, a key has the 0-based position of
  the first catalog row that encodes to it: a later row with the same key changes
  nothing, and when all keys are distinct each key has the position of its own row.
\<close>

theorem StartCmd_first_row_wins:
  assumes "validate H arg pp0 True = Inr pp"
    and "schema (SQLClient_open arg (collistquery pp)) = col # cols"
    and "StartCmd H arg pp0 = Inr tbl"
    and "i < length (rows (SQLClient_open arg (collistquery pp)))"
    and "add_key H (type_col col) (rows (SQLClient_open arg (collistquery pp)) ! i) = Some k"
    and "\<forall>j<i. add_key H (type_col col) (rows (SQLClient_open arg (collistquery pp)) ! j) \<noteq> Some k"
  shows "map_of (m_map_values tbl) k = Some (int i) \<and> findcolumnoffset tbl k = int i"
proof -
  let ?t0 = "setPivotColType (type_col col) (length_col col) PivotMapTable_new"
  from assms(1-3)
  have f: "fetch_add H (rows (SQLClient_open arg (collistquery pp))) 0 ?t0 = Inr tbl"
    by (simp add: StartCmd_def Let_def)
  have ty: "m_pivotcol_type ?t0 = type_col col" and e: "map_of (m_map_values ?t0) k = None"
    by (simp_all add: setPivotColType_def PivotMapTable_new_def)
  from fetch_add_first [OF f e assms(4)] assms(5,6) ty
  have "map_of (m_map_values tbl) k = Some (int i)" by simp
  then show ?thesis by (simp add: findcolumnoffset_def)
qed

theorem StartCmd_first_row_wins_witness:
  "findcolumnoffset (ex_session \<lparr>m_map_values := [(''OPEN'', 0), (''CLOSED'', 2)]\<rparr>) ''CLOSED'' = 2"
proof -
  let ?arg = "ex_arg [ex_catalog_row ''OPEN'' ''open_amt'', ex_catalog_row ''OPEN'' ''open_qty'',
                      ex_catalog_row ''CLOSED'' ''closed_amt'']"
  let ?pp = "ex_params \<lparr>pivotColType := 0, pivotValColDescs := []\<rparr>"
  let ?col = "\<lparr>type_col = 9, length_col = 16\<rparr>"
  have v: "validate ex_vdb ?arg ex_local True = Inr ?pp"
    by (simp add: validate_def ex_defs)
  have sc: "schema (SQLClient_open ?arg (collistquery ?pp)) = ?col # [?col]"
    by (simp add: ex_defs)
  have st: "StartCmd ex_vdb ?arg ex_local =
              Inr (ex_session \<lparr>m_map_values := [(''OPEN'', 0), (''CLOSED'', 2)]\<rparr>)"
    by (simp add: StartCmd_def validate_def ex_defs add_def add_key_def setPivotColType_def
          PivotMapTable_new_def umap_insert_def)
  have i: "2 < length (rows (SQLClient_open ?arg (collistquery ?pp)))"
    by (simp add: ex_defs)
  have k: "add_key ex_vdb (type_col ?col) (rows (SQLClient_open ?arg (collistquery ?pp)) ! 2) =
             Some ''CLOSED''"
    by (simp add: add_key_def ex_defs)
  have first: "\<forall>j<2. add_key ex_vdb (type_col ?col)
                        (rows (SQLClient_open ?arg (collistquery ?pp)) ! j) \<noteq> Some ''CLOSED''"
    by (simp add: add_key_def ex_defs less_2_cases_iff)
  from StartCmd_first_row_wins [OF v sc st i k first] show ?thesis
    by simp
qed

text \<open>
  C5.  The claim is that \<^verbatim>\<open>StartCmd\<close> fails with a schema error when the catalog query
  yields no row.  The loop over \<^verbatim>\<open>sql.fetch()\<close> is then not entered and the empty table is
  handed to \<^verbatim>\<open>setSessionData\<close>; nothing in \<^verbatim>\<open>StartCmd\<close> looks at the number of rows.
\<close>

theorem StartCmd_no_rows_counterexample:
  "StartCmd ex_vdb (ex_arg []) ex_local = Inr (ex_session \<lparr>m_map_values := []\<rparr>) \<and>
   StartCmd ex_vdb (ex_arg []) ex_local \<noteq> Inl SchemaError"
  by (simp add: StartCmd_def validate_def ex_defs setPivotColType_def PivotMapTable_new_def)

text \<open>
  C5, amended.  When the parameters are valid and the catalog query yields a schema and
  no row, \<^verbatim>\<open>StartCmd\<close> raises no error and installs a table whose map is empty, with the
  type and length of the query's first column.
\<close>

theorem StartCmd_no_rows:
  assumes "validate H arg pp0 True = Inr pp"
    and "schema (SQLClient_open arg (collistquery pp)) = col # cols"
    and "rows (SQLClient_open arg (collistquery pp)) = []"
  shows "\<exists>tbl. StartCmd H arg pp0 = Inr tbl \<and> m_map_values tbl = [] \<and>
           m_pivotcol_type tbl = type_col col \<and> m_pivotcol_len tbl = length_col col"
  using assms by (simp add: StartCmd_def Let_def setPivotColType_def PivotMapTable_new_def)

theorem StartCmd_no_rows_witness:
  "\<exists>tbl. StartCmd ex_vdb (ex_arg []) ex_local = Inr tbl \<and> m_map_values tbl = [] \<and>
         m_pivotcol_type tbl = 9 \<and> m_pivotcol_len tbl = 16"
proof -
  let ?pp = "ex_params \<lparr>pivotColType := 0, pivotValColDescs := []\<rparr>"
  let ?col = "\<lparr>type_col = 9, length_col = 16\<rparr>"
  have v: "validate ex_vdb (ex_arg []) ex_local True = Inr ?pp"
    by (simp add: validate_def ex_defs)
  have sc: "schema (SQLClient_open (ex_arg []) (collistquery ?pp)) = ?col # [?col]"
    by (simp add: ex_defs)
  have r: "rows (SQLClient_open (ex_arg []) (collistquery ?pp)) = []"
    by (simp add: ex_defs)
  from StartCmd_no_rows [OF v sc r] show ?thesis
    by simp
qed

text \<open>
  C6.  The claim is that a type code outside the ten supported ones makes the encoder
  fail.  Both \<^verbatim>\<open>switch\<close> statements end in \<^verbatim>\<open>default: break;\<close>: for the type code 99
  \<^verbatim>\<open>add\<close> stores the empty key and \<^verbatim>\<open>process\<close> computes the empty key, and no error is
  raised.
\<close>

theorem unsupported_type_counterexample:
  "add ex_vdb (ex_catalog_row ''OPEN'' ''open_amt'') 0 (setPivotColType 99 16 PivotMapTable_new) =
     Inr (setPivotColType 99 16 PivotMapTable_new \<lparr>m_map_values := [([], 0)]\<rparr>) \<and>
   process_key ex_vdb (ex_params \<lparr>pivotColType := 99\<rparr>) (ex_in ''east'' ''OPEN'' 10) = Some []"
  by (simp add: add_def add_key_def process_key_def ex_defs setPivotColType_def
        PivotMapTable_new_def umap_insert_def)

text \<open>
  C6, amended.  For a type code outside the supported ones the encoder raises no error
  and the key is the empty string, in \<^verbatim>\<open>add\<close> (which inserts it) and in \<^verbatim>\<open>process\<close>.
\<close>

theorem unsupported_type_empty_key:
  assumes "m_pivotcol_type tbl \<notin> supported_types H" and "pivotColType P \<notin> supported_types H"
  shows "add_key H (m_pivotcol_type tbl) row_p = Some [] \<and>
         add H row_p colpos tbl =
           Inr (tbl \<lparr>m_map_values := umap_insert [] colpos (m_map_values tbl)\<rparr>) \<and>
         process_key H P rd_in = Some []"
  using assms by (simp add: add_def add_key_def process_key_def supported_types_def)

theorem unsupported_type_empty_key_witness:
  "add_key ex_vdb 99 (ex_catalog_row ''OPEN'' ''open_amt'') = Some [] \<and>
   process_key ex_vdb (ex_params \<lparr>pivotColType := 99\<rparr>) (ex_in ''east'' ''OPEN'' 10) = Some []"
proof -
  have a: "m_pivotcol_type (setPivotColType 99 16 PivotMapTable_new) \<notin> supported_types ex_vdb"
    by (simp add: supported_types_def setPivotColType_def PivotMapTable_new_def ex_defs)
  have b: "pivotColType (ex_params \<lparr>pivotColType := 99\<rparr>) \<notin> supported_types ex_vdb"
    by (simp add: supported_types_def ex_defs)
  from unsupported_type_empty_key
         [OF a b, of "ex_catalog_row ''OPEN'' ''open_amt''" 0 "ex_in ''east'' ''OPEN'' 10"]
  show ?thesis
    by (simp add: setPivotColType_def PivotMapTable_new_def)
qed

section \<open>Serialization round trip\<close>

lemma foldl_entries:
  "foldl (\<lambda>s' it. s' @ [StrItem (fst it), IntItem (snd it)]) s xs =
   s @ concat (map (\<lambda>it. [StrItem (fst it), IntItem (snd it)]) xs)"
  by (induction xs arbitrary: s) simp_all

lemma read_entries_concat:
  "read_entries (length xs)
     (concat (map (\<lambda>it. [StrItem (fst it), IntItem (snd it)]) xs) @ rest) m =
   Inr (foldl (\<lambda>m' it. umap_insert (fst it) (snd it) m') m xs, rest)"
  by (induction xs arbitrary: m) simp_all

lemma map_of_foldl_insert:
  "map_of (foldl (\<lambda>m' it. umap_insert (fst it) (snd it) m') m xs) k =
     (case map_of m k of Some w \<Rightarrow> Some w | None \<Rightarrow> map_of xs k)"
proof (induction xs arbitrary: m)
  case Nil
  then show ?case by (simp split: option.splits)
next
  case (Cons x xs)
  show ?case
    by (cases x) (simp add: Cons.IH map_of_umap_insert split: option.splits)
qed

text \<open>
  C8.  For every table, \<^verbatim>\<open>deserialize\<close> on a newly constructed table reads back what
  \<^verbatim>\<open>serialize\<close> wrote, to the last item: the result looks up every key as the original
  does, and the type and length of the pivot column and of the value column are those of
  the original.
\<close>

theorem serialize_deserialize:
  "\<exists>t'. deserialize PivotMapTable_new (serialize t []) = Inr (t', []) \<and>
        map_of (m_map_values t') = map_of (m_map_values t) \<and>
        m_pivotcol_type t' = m_pivotcol_type t \<and> m_pivotcol_len t' = m_pivotcol_len t \<and>
        m_value_type t' = m_value_type t \<and> m_value_len t' = m_value_len t"
proof -
  let ?xs = "m_map_values t"
  let ?m = "foldl (\<lambda>m' it. umap_insert (fst it) (snd it) m') [] ?xs"
  have re: "read_entries (length ?xs)
              (concat (map (\<lambda>it. [StrItem (fst it), IntItem (snd it)]) ?xs)) [] = Inr (?m, [])"
    using read_entries_concat [of ?xs "[]" "[]"] by simp
  have "deserialize PivotMapTable_new (serialize t []) =
          Inr (PivotMapTable_new
                 \<lparr>m_pivotcol_type := m_pivotcol_type t, m_pivotcol_len := m_pivotcol_len t,
                  m_value_type := m_value_type t, m_value_len := m_value_len t,
                  m_map_values := ?m\<rparr>, [])"
    by (simp add: deserialize_def serialize_def foldl_entries re PivotMapTable_new_def)
  moreover have "map_of ?m = map_of ?xs"
    by (rule ext) (simp add: map_of_foldl_insert)
  ultimately show ?thesis by simp
qed



section \<open>Processing a row\<close>




lemma first_time_fields:
  "m_map (first_time s rd_in) = m_map s"
  "m_pivotParameters (first_time s rd_in) = m_pivotParameters s"
  "m_first_time (first_time s rd_in) = False"
  by (simp_all add: first_time_def Let_def split: prod.splits)

lemma copy_values_eq:
  assumes "\<forall>c\<in>set cs. c < length (pivotValCols P)" and "0 \<le> offs * numpivotValCols P"
  shows "copy_values P rd_in G G offs cs out =
     Inr (\<lambda>j. if \<exists>c\<in>set cs. j = G + offs * numpivotValCols P + int c
               then rd_in (pivotValCols P ! nat (j - (G + offs * numpivotValCols P)))
               else out j)"
  using assms
proof (induction cs arbitrary: out)
  case Nil
  then show ?case by simp
next
  case (Cons c cs)
  from Cons.prems have ih: "copy_values P rd_in G G offs cs out' =
     Inr (\<lambda>j. if \<exists>c\<in>set cs. j = G + offs * numpivotValCols P + int c
               then rd_in (pivotValCols P ! nat (j - (G + offs * numpivotValCols P)))
               else out' j)" for out'
    by (intro Cons.IH) auto
  from Cons.prems show ?case
    by (auto simp: ih Let_def copyColumnValue_def fun_eq_iff)
qed


lemma process_Inr:
  assumes wf: "numpivotValCols (m_pivotParameters s) = int (length (pivotValCols (m_pivotParameters s)))"
    and nn: "\<not> isNull (rd_in (pivotColIdx (m_pivotParameters s)))"
    and key: "process_key H (m_pivotParameters s) rd_in = Some key"
    and found: "map_of (m_map_values (m_map s)) key = Some offs"
    and pos: "0 \<le> offs"
  shows "process H s rd_in =
     Inr ((if m_first_time s then first_time s rd_in else s)
          \<lparr>m_out_rd := (\<lambda>j. if j \<in> key_block (m_pivotParameters s) offs
               then rd_in (pivotValCols (m_pivotParameters s) !
                      nat (j - (int (length (grpCols (m_pivotParameters s))) +
                                offs * numpivotValCols (m_pivotParameters s))))
               else m_out_rd (if m_first_time s then first_time s rd_in else s) j)\<rparr>)"
proof -
  let ?P = "m_pivotParameters s"
  let ?G = "int (length (grpCols ?P))"
  let ?s1 = "if m_first_time s then first_time s rd_in else s"
  have off: "findcolumnoffset (m_map s) key = offs"
    using found by (simp add: findcolumnoffset_def)
  have nonneg: "0 \<le> offs * numpivotValCols ?P"
    using pos wf by simp
  have idx: "\<forall>c\<in>set [0 ..< nat (numpivotValCols ?P)]. c < length (pivotValCols ?P)"
    using wf by simp
  have blk: "(\<exists>c\<in>set [0 ..< nat (numpivotValCols ?P)]. j = ?G + offs * numpivotValCols ?P + int c)
             \<longleftrightarrow> j \<in> key_block ?P offs" for j
  proof
    assume "\<exists>c\<in>set [0 ..< nat (numpivotValCols ?P)]. j = ?G + offs * numpivotValCols ?P + int c"
    then show "j \<in> key_block ?P offs"
      using wf by (auto simp: key_block_def)
  next
    assume j: "j \<in> key_block ?P offs"
    then have "nat (j - (?G + offs * numpivotValCols ?P)) \<in> set [0 ..< nat (numpivotValCols ?P)]"
      and "j = ?G + offs * numpivotValCols ?P + int (nat (j - (?G + offs * numpivotValCols ?P)))"
      by (auto simp: key_block_def)
    then show "\<exists>c\<in>set [0 ..< nat (numpivotValCols ?P)]. j = ?G + offs * numpivotValCols ?P + int c"
      by blast
  qed
  have cv: "copy_values ?P rd_in ?G ?G offs [0 ..< nat (numpivotValCols ?P)] out =
     Inr (\<lambda>j. if j \<in> key_block ?P offs
               then rd_in (pivotValCols ?P ! nat (j - (?G + offs * numpivotValCols ?P)))
               else out j)" for out
    by (simp only: copy_values_eq [OF idx nonneg] blk)
  show ?thesis
  proof (cases "m_first_time s")
    case True
    with nn key pos off cv show ?thesis
      by (simp add: process_def Let_def first_time_fields)
  next
    case False
    with nn key pos off cv show ?thesis
      by (simp add: process_def Let_def)
  qed
qed


lemmas process_eval = process_def first_time_def process_key_def findcolumnoffset_def
  getMapSize_def copyColumnValue_def setNull_def PivotClass_new_def Let_def
  FinalizeCmd_def flush_def put_def numeral_2_eq_2

lemma process_not_found:
  assumes "\<not> isNull (rd_in (pivotColIdx (m_pivotParameters s)))"
    and "process_key H (m_pivotParameters s) rd_in = Some key"
    and "map_of (m_map_values (m_map s)) key = None"
  shows "process H s rd_in = Inl PivotKeyNotFound"
  using assms by (simp add: process_def Let_def findcolumnoffset_def first_time_fields)

lemma process_first_time:
  "process H s rd_in = Inr s' \<Longrightarrow> \<not> m_first_time s'"
  by (auto simp: process_def Let_def first_time_fields split: if_splits option.splits sum.splits)

lemma process_params:
  "process H s rd_in = Inr s' \<Longrightarrow> m_pivotParameters s' = m_pivotParameters s \<and> m_map s' = m_map s"
  by (auto simp: process_def Let_def first_time_fields split: if_splits option.splits sum.splits)

lemma copy_values_frame:
  "copy_values P rd_in G G offs cs out = Inr out' \<Longrightarrow>
   \<forall>c\<in>set cs. j \<noteq> G + offs * numpivotValCols P + int c \<Longrightarrow> out' j = out j"
proof (induction cs arbitrary: out)
  case Nil
  then show ?case by simp
next
  case (Cons c cs)
  then show ?case
    by (auto simp: Let_def copyColumnValue_def split: if_splits)
qed

lemma process_frame_later:
  assumes "process H s rd_in = Inr s'" and "\<not> m_first_time s"
    and "process_key H (m_pivotParameters s) rd_in = Some key"
    and "map_of (m_map_values (m_map s)) key = Some offs"
    and "j \<notin> key_block (m_pivotParameters s) offs"
  shows "m_out_rd s' j = m_out_rd s j"
proof -
  let ?P = "m_pivotParameters s"
  let ?G = "int (length (grpCols ?P))"
  from assms(1-4) obtain out where
    cv: "copy_values ?P rd_in ?G ?G offs [0 ..< nat (numpivotValCols ?P)] (m_out_rd s) = Inr out"
    and s': "s' = s \<lparr>m_out_rd := out\<rparr>"
    by (auto simp: process_def Let_def findcolumnoffset_def split: if_splits sum.splits)
  have "\<forall>c\<in>set [0 ..< nat (numpivotValCols ?P)]. j \<noteq> ?G + offs * numpivotValCols ?P + int c"
    using assms(5) by (auto simp: key_block_def)
  from copy_values_frame [OF cv this] s' show ?thesis by simp
qed

lemma process_block:
  assumes "numpivotValCols (m_pivotParameters s) = int (length (pivotValCols (m_pivotParameters s)))"
    and "\<not> isNull (rd_in (pivotColIdx (m_pivotParameters s)))"
    and "process_key H (m_pivotParameters s) rd_in = Some key"
    and "map_of (m_map_values (m_map s)) key = Some offs"
    and "0 \<le> offs"
  shows "\<exists>s'. process H s rd_in = Inr s' \<and>
     (\<forall>c<length (pivotValCols (m_pivotParameters s)).
        m_out_rd s' (int (length (grpCols (m_pivotParameters s))) +
                     offs * numpivotValCols (m_pivotParameters s) + int c) =
        rd_in (pivotValCols (m_pivotParameters s) ! c))"
  using assms(1) by (simp add: process_Inr [OF assms] key_block_def)




text \<open>
  The code wraps where the integers do not: for a key at offset \<open>2^30\<close> and two value
  columns the position is \<open>1 + 2^31\<close>, which the variable holds as \<open>1 - 2^31\<close>, and the
  check of line 331 raises.
\<close>

lemma process32_wraps:
  "process32 ex_vdb
     (PivotClass_new (ex_session \<lparr>m_map_values := [(''OPEN'', 1073741824)]\<rparr>)
        (ex_params \<lparr>pivotValCols := [2, 2], numpivotValCols := 2\<rparr>) (ex_row []))
     (ex_in ''east'' ''OPEN'' 10) = Inl OffsetRangeError"
  by (simp add: process32_def process_key_def findcolumnoffset_def int32_def Let_def
        first_time_fields numeral_2_eq_2 ex_defs)




text \<open>
  C2.  Let the functor hold a map that \<^verbatim>\<open>StartCmd\<close> built.  Then \<^verbatim>\<open>process\<close> raises
  the null-pivot-key error exactly when the pivot column of the row is null; for a row
  whose pivot column is not null and has the key \<open>key\<close>, it raises the key-not-found error
  exactly when the map has no entry for \<open>key\<close>, and when the map has one it returns without
  an error, the block of the key holding the row's value columns.
\<close>

theorem process_error_cases:
  assumes built: "StartCmd H arg pp0 = Inr (m_map s)"
    and wf: "numpivotValCols (m_pivotParameters s) = int (length (pivotValCols (m_pivotParameters s)))"
  shows "(process H s rd_in = Inl NullPivotKey \<longleftrightarrow>
            isNull (rd_in (pivotColIdx (m_pivotParameters s)))) \<and>
         (\<forall>key. \<not> isNull (rd_in (pivotColIdx (m_pivotParameters s))) \<and>
                process_key H (m_pivotParameters s) rd_in = Some key \<longrightarrow>
            (process H s rd_in = Inl PivotKeyNotFound \<longleftrightarrow>
               map_of (m_map_values (m_map s)) key = None) \<and>
            (map_of (m_map_values (m_map s)) key \<noteq> None \<longrightarrow>
               (\<exists>s'. process H s rd_in = Inr s' \<and>
                  (\<forall>c<length (pivotValCols (m_pivotParameters s)).
                     m_out_rd s' (int (length (grpCols (m_pivotParameters s))) +
                        findcolumnoffset (m_map s) key * numpivotValCols (m_pivotParameters s) +
                        int c) =
                     rd_in (pivotValCols (m_pivotParameters s) ! c)))))"
proof -
  let ?P = "m_pivotParameters s"
  have present: "\<exists>s'. process H s rd_in = Inr s' \<and>
       (\<forall>c<length (pivotValCols ?P).
          m_out_rd s' (int (length (grpCols ?P)) + offs * numpivotValCols ?P + int c) =
          rd_in (pivotValCols ?P ! c))"
    if "\<not> isNull (rd_in (pivotColIdx ?P))" "process_key H ?P rd_in = Some key"
      "map_of (m_map_values (m_map s)) key = Some offs" for key offs
  proof -
    from StartCmd_offsets [OF built that(3)] have "0 \<le> offs" .
    from process_block [OF wf that this] show ?thesis .
  qed
  have absent: "process H s rd_in = Inl PivotKeyNotFound"
    if "\<not> isNull (rd_in (pivotColIdx ?P))" "process_key H ?P rd_in = Some key"
      "map_of (m_map_values (m_map s)) key = None" for key
    using that by (rule process_not_found)
  have null: "process H s rd_in = Inl NullPivotKey" if "isNull (rd_in (pivotColIdx ?P))"
    using that by (simp add: process_def Let_def)
  have not_null: "process H s rd_in \<noteq> Inl NullPivotKey" if nn: "\<not> isNull (rd_in (pivotColIdx ?P))"
  proof (cases "process_key H ?P rd_in")
    case None
    with nn show ?thesis by (simp add: process_def Let_def)
  next
    case (Some key)
    show ?thesis
    proof (cases "map_of (m_map_values (m_map s)) key")
      case None
      from absent [OF nn Some None] show ?thesis by simp
    next
      case (Some offs)
      from present [OF nn \<open>process_key H ?P rd_in = Some key\<close> Some] show ?thesis by auto
    qed
  qed
  show ?thesis
  proof (intro conjI allI impI)
    show "process H s rd_in = Inl NullPivotKey \<longleftrightarrow> isNull (rd_in (pivotColIdx ?P))"
      using null not_null by blast
  next
    fix key
    assume a: "\<not> isNull (rd_in (pivotColIdx ?P)) \<and> process_key H ?P rd_in = Some key"
    show "process H s rd_in = Inl PivotKeyNotFound \<longleftrightarrow> map_of (m_map_values (m_map s)) key = None"
    proof
      assume e: "process H s rd_in = Inl PivotKeyNotFound"
      show "map_of (m_map_values (m_map s)) key = None"
      proof (rule ccontr)
        assume "map_of (m_map_values (m_map s)) key \<noteq> None"
        then obtain offs where "map_of (m_map_values (m_map s)) key = Some offs" by auto
        from present [OF _ _ this] a e show False by auto
      qed
    next
      assume "map_of (m_map_values (m_map s)) key = None"
      with absent a show "process H s rd_in = Inl PivotKeyNotFound" by blast
    qed
  next
    fix key
    assume a: "\<not> isNull (rd_in (pivotColIdx ?P)) \<and> process_key H ?P rd_in = Some key"
      and "map_of (m_map_values (m_map s)) key \<noteq> None"
    then obtain offs where f: "map_of (m_map_values (m_map s)) key = Some offs" by auto
    then have "findcolumnoffset (m_map s) key = offs" by (simp add: findcolumnoffset_def)
    with present [OF _ _ f] a
    show "\<exists>s'. process H s rd_in = Inr s' \<and>
            (\<forall>c<length (pivotValCols ?P).
               m_out_rd s' (int (length (grpCols ?P)) +
                  findcolumnoffset (m_map s) key * numpivotValCols ?P + int c) =
               rd_in (pivotValCols ?P ! c))"
      by simp
  qed
qed



theorem process_error_cases_witness:
  "process ex_vdb ex_functor (ex_in ''east'' ''PENDING'' 3) = Inl PivotKeyNotFound \<and>
   process ex_vdb ex_functor (ex_row [ex_cell False 0 ''east'', ex_cell True 0 [], ex_cell False 3 []]) =
     Inl NullPivotKey"
proof -
  let ?arg = "ex_arg [ex_catalog_row ''OPEN'' ''open_amt'', ex_catalog_row ''CLOSED'' ''closed_amt'']"
  let ?null = "ex_row [ex_cell False 0 ''east'', ex_cell True 0 [], ex_cell False 3 []]"
  have built: "StartCmd ex_vdb ?arg ex_local = Inr (m_map ex_functor)"
    by (simp add: StartCmd_def validate_def ex_defs add_def add_key_def setPivotColType_def
          PivotMapTable_new_def umap_insert_def)
  have wf: "numpivotValCols (m_pivotParameters ex_functor) =
              int (length (pivotValCols (m_pivotParameters ex_functor)))"
    by (simp add: ex_defs)
  have nn: "\<not> isNull (ex_in ''east'' ''PENDING'' 3 (pivotColIdx (m_pivotParameters ex_functor)))"
    by (simp add: ex_defs)
  have key: "process_key ex_vdb (m_pivotParameters ex_functor) (ex_in ''east'' ''PENDING'' 3) =
               Some ''PENDING''"
    by (simp add: process_key_def ex_defs)
  have absent: "map_of (m_map_values (m_map ex_functor)) ''PENDING'' = None"
    by (simp add: ex_defs)
  have null: "isNull (?null (pivotColIdx (m_pivotParameters ex_functor)))"
    by (simp add: ex_defs)
  from process_error_cases [OF built wf, of "ex_in ''east'' ''PENDING'' 3"] nn key absent
  have "process ex_vdb ex_functor (ex_in ''east'' ''PENDING'' 3) = Inl PivotKeyNotFound"
    by blast
  moreover from process_error_cases [OF built wf, of ?null] null
  have "process ex_vdb ex_functor ?null = Inl NullPivotKey"
    by blast
  ultimately show ?thesis by simp
qed

section \<open>The group boundary\<close>

text \<open>
  C9.  The claim is that at a group boundary the processor, besides emitting the row,
  goes back to awaiting a first row, so that the first row of the next group copies the
  grouping columns and sets all pivot slots to null again.  \<^verbatim>\<open>flush\<close> only puts the row:
  after a row of group east and \<^verbatim>\<open>Finalize\<close> the flag \<^verbatim>\<open>m_first_time\<close> is still false, and
  a row of group west with key CLOSED, processed next, leaves east in the grouping slot
  and the value 10 in the slot of OPEN.
\<close>

theorem flush_resets_counterexample:
  "\<not> isl (run ex_vdb [Process (ex_in ''east'' ''OPEN'' 10), Finalize] (ex_functor, [])) \<and>
   \<not> m_first_time (fst (projr
       (run ex_vdb [Process (ex_in ''east'' ''OPEN'' 10), Finalize] (ex_functor, [])))) \<and>
   \<not> isl (run ex_vdb [Process (ex_in ''east'' ''OPEN'' 10), Finalize,
                      Process (ex_in ''west'' ''CLOSED'' 7)] (ex_functor, [])) \<and>
   m_out_rd (fst (projr
       (run ex_vdb [Process (ex_in ''east'' ''OPEN'' 10), Finalize,
                    Process (ex_in ''west'' ''CLOSED'' 7)] (ex_functor, [])))) 0 =
     ex_cell False 0 ''east'' \<and>
   m_out_rd (fst (projr
       (run ex_vdb [Process (ex_in ''east'' ''OPEN'' 10), Finalize,
                    Process (ex_in ''west'' ''CLOSED'' 7)] (ex_functor, [])))) 1 =
     ex_cell False 10 []"
  by (simp add: process_eval ex_defs)

text \<open>
  C9, amended.  After a row has been processed, \<^verbatim>\<open>Finalize\<close> hands the accumulated row
  to the row store and leaves the processor as it is, the first-row flag cleared and the
  accumulator kept: a row processed next by the same processor changes the slots of its
  own key block only, so the grouping columns and the other pivot slots keep the values of
  the row that was handed over.
\<close>

theorem FinalizeCmd_keeps_functor:
  assumes "process H s rd_in = Inr s1"
  shows "FinalizeCmd s1 store = (s1, store @ [m_out_rd s1]) \<and>
         \<not> m_first_time (fst (FinalizeCmd s1 store)) \<and>
         (\<forall>rd' s2 key offs j.
            process H (fst (FinalizeCmd s1 store)) rd' = Inr s2 \<and>
            process_key H (m_pivotParameters s1) rd' = Some key \<and>
            map_of (m_map_values (m_map s1)) key = Some offs \<and>
            j \<notin> key_block (m_pivotParameters s1) offs \<longrightarrow>
            m_out_rd s2 j = m_out_rd s1 j)"
proof -
  have f: "FinalizeCmd s1 store = (s1, store @ [m_out_rd s1])"
    by (simp add: FinalizeCmd_def flush_def put_def)
  have n: "\<not> m_first_time s1"
    using assms by (rule process_first_time)
  from f n process_frame_later [where s = s1 and H = H] show ?thesis
    by auto
qed

theorem FinalizeCmd_keeps_functor_witness:
  "\<exists>s1 s2. process ex_vdb ex_functor (ex_in ''east'' ''OPEN'' 10) = Inr s1 \<and>
     process ex_vdb (fst (FinalizeCmd s1 [])) (ex_in ''west'' ''CLOSED'' 7) = Inr s2 \<and>
     snd (FinalizeCmd s1 []) = [m_out_rd s1] \<and>
     m_out_rd s2 0 = m_out_rd s1 0 \<and> m_out_rd s2 1 = m_out_rd s1 1"
proof -
  have wf: "numpivotValCols (m_pivotParameters ex_functor) =
              int (length (pivotValCols (m_pivotParameters ex_functor)))"
    by (simp add: ex_defs)
  have nn: "\<not> isNull (ex_in ''east'' ''OPEN'' 10 (pivotColIdx (m_pivotParameters ex_functor)))"
    by (simp add: ex_defs)
  have key: "process_key ex_vdb (m_pivotParameters ex_functor) (ex_in ''east'' ''OPEN'' 10) = Some ''OPEN''"
    by (simp add: process_key_def ex_defs)
  have found: "map_of (m_map_values (m_map ex_functor)) ''OPEN'' = Some 0"
    by (simp add: ex_defs)
  from process_Inr [OF wf nn key found] obtain s1 where
    p1: "process ex_vdb ex_functor (ex_in ''east'' ''OPEN'' 10) = Inr s1"
    by simp
  from process_params [OF p1] have same: "m_pivotParameters s1 = m_pivotParameters ex_functor"
    "m_map s1 = m_map ex_functor" by simp_all
  note t = FinalizeCmd_keeps_functor [OF p1, of "[]"]
  have wf': "numpivotValCols (m_pivotParameters s1) =
              int (length (pivotValCols (m_pivotParameters s1)))"
    by (simp add: same ex_defs)
  have nn': "\<not> isNull (ex_in ''west'' ''CLOSED'' 7 (pivotColIdx (m_pivotParameters s1)))"
    by (simp add: same ex_defs)
  have key': "process_key ex_vdb (m_pivotParameters s1) (ex_in ''west'' ''CLOSED'' 7) = Some ''CLOSED''"
    by (simp add: same process_key_def ex_defs)
  have found': "map_of (m_map_values (m_map s1)) ''CLOSED'' = Some 1"
    by (simp add: same ex_defs)
  from t have fin: "FinalizeCmd s1 [] = (s1, [m_out_rd s1])" by simp
  from process_Inr [OF wf' nn' key' found'] obtain s2 where
    p2: "process ex_vdb (fst (FinalizeCmd s1 [])) (ex_in ''west'' ''CLOSED'' 7) = Inr s2"
    by (simp add: fin)
  have out: "0 \<notin> key_block (m_pivotParameters s1) 1" "1 \<notin> key_block (m_pivotParameters s1) 1"
    by (simp_all add: same key_block_def ex_defs)
  from t p2 key' found' out have "m_out_rd s2 0 = m_out_rd s1 0" "m_out_rd s2 1 = m_out_rd s1 1"
    by blast+
  with p1 p2 fin show ?thesis by auto
qed



section \<open>last_day in February\<close>

lemma tmod_zero_iff: "0 < b \<Longrightarrow> tmod a b = 0 \<longleftrightarrow> b dvd a"
proof -
  assume b: "0 < b"
  show ?thesis
  proof (cases "a < 0")
    case False
    with b have "tmod a b = a mod b"
      by (simp add: tmod_def tdiv_def minus_mult_div_eq_mod)
    then show ?thesis by (simp add: dvd_eq_mod_eq_0)
  next
    case True
    with b have "tmod a b = - ((- a) mod b)"
      by (simp add: tmod_def tdiv_def minus_mult_div_eq_mod [symmetric] algebra_simps)
    then show ?thesis by (simp add: dvd_eq_mod_eq_0 [symmetric])
  qed
qed

lemma isleap_gregorian: "isleap y = gregorian_leap y"
  by (simp add: isleap_def gregorian_leap_def tmod_zero_iff)

text \<open>
  C10.  On a host whose calendar keeps the days of a February together, \<^verbatim>\<open>last_day\<close> of
  a date in February that is not null is a date of the same year, in February, whose day
  is 29 when the year is divisible by 4 and not by 100 unless also by 400, and 28
  otherwise.
\<close>

theorem last_day_february:
  assumes cal: "february_calendar D"
    and feb: "extract_month_from_date D in_date = 2"
  shows "\<exists>r. last_day D False in_date = Inr (Some r) \<and>
           extract_year_from_date D r = extract_year_from_date D in_date \<and>
           extract_month_from_date D r = 2 \<and>
           extract_day_from_date D r =
             (if gregorian_leap (extract_year_from_date D in_date) then 29 else 28)"
proof -
  let ?y = "extract_year_from_date D in_date"
  let ?n = "february_days ?y - extract_day_from_date D in_date"
  have r: "last_day D False in_date = Inr (Some (date_plus_days D in_date ?n))"
    using feb
    by (simp add: last_day_def calc_lastdayofmonth_def Let_def isleap_gregorian
          february_days_def m_last_days_def)
  have "extract_month_from_date D in_date = 2 \<and> 1 \<le> extract_day_from_date D in_date + ?n \<and>
        extract_day_from_date D in_date + ?n \<le> february_days ?y"
    using feb by (simp add: february_days_def)
  with cal have "extract_year_from_date D (date_plus_days D in_date ?n) = ?y \<and>
      extract_month_from_date D (date_plus_days D in_date ?n) = 2 \<and>
      extract_day_from_date D (date_plus_days D in_date ?n) = extract_day_from_date D in_date + ?n"
    unfolding february_calendar_def by blast
  with r show ?thesis
    by (simp add: february_days_def)
qed

lemma next_day_iter:
  "d + int k \<le> days_in_month y m \<Longrightarrow> (next_day ^^ k) (y, m, d) = (y, m, d + int k)"
  by (induction k) simp_all

lemma prev_day_iter:
  "1 \<le> d - int k \<Longrightarrow> (prev_day ^^ k) (y, m, d) = (y, m, d - int k)"
  by (induction k) simp_all

lemma civil_february: "february_calendar civil_padb"
proof -
  have "civil_plus_days (y, 2, d) n = (y, 2, d + n)"
    if "1 \<le> d + n" "d + n \<le> february_days y" for y d n
  proof (cases "0 \<le> n")
    case True
    with that next_day_iter [of d "nat n" y 2] show ?thesis
      by (simp add: civil_plus_days_def days_in_month_def)
  next
    case False
    with that prev_day_iter [of d "nat (- n)" y 2] show ?thesis
      by (simp add: civil_plus_days_def)
  qed
  then show ?thesis
    by (auto simp: february_calendar_def civil_padb_def)
qed

theorem last_day_february_witness:
  "(\<exists>r. last_day civil_padb False (2024, 2, 10) = Inr (Some r) \<and>
        extract_year_from_date civil_padb r = 2024 \<and>
        extract_month_from_date civil_padb r = 2 \<and>
        extract_day_from_date civil_padb r = 29) \<and>
   (\<exists>r. last_day civil_padb False (2023, 2, 28) = Inr (Some r) \<and>
        extract_year_from_date civil_padb r = 2023 \<and>
        extract_month_from_date civil_padb r = 2 \<and>
        extract_day_from_date civil_padb r = 28)"
proof -
  have m1: "extract_month_from_date civil_padb (2024, 2, 10) = 2"
    and m2: "extract_month_from_date civil_padb (2023, 2, 28) = 2"
    by (simp_all add: civil_padb_def)
  from last_day_february [OF civil_february m1] last_day_february [OF civil_february m2]
  show ?thesis
    by (simp add: civil_padb_def gregorian_leap_def)
qed


end
